theory Spec2Isabelle
  imports Main "HOL-Library.Char_ord" "HOL-Library.List_Lexorder"
begin

section \<open>THORName resolution over the change-event log\<close>

text \<open>
  The four operations of package \<open>timeseries\<close> (\<open>CheckTHORName\<close>, \<open>GetTHORName\<close>,
  \<open>GetTHORNamesByAddress\<close>, \<open>GetTHORNamesByOwnerAddress\<close>) read the table
  \<open>thorname_change_events\<close> through \<open>db.Query\<close> and the chain height through
  \<open>LastBlock\<close>. Neither \<open>db.Query\<close> nor \<open>LastBlock\<close> is part of the source file: the
  data source is a parameter \<open>Query\<close> of every operation, threaded with a state of its
  own, and the height is the parameter \<open>currentHeight\<close>.
\<close>

subsection \<open>Rows of the table\<close>

text \<open>
  One row of \<open>thorname_change_events\<close>, with the columns the four SQL statements
  mention. \<open>expire\<close> and \<open>block_timestamp\<close> are BIGINT columns that are only compared,
  never computed with, so they are integers here.
\<close>

record change_event =
  name :: string
  chain :: string
  address :: string
  owner :: string
  expire :: int
  block_timestamp :: int

type_synonym thorname_change_events = "change_event list"

subsection \<open>The data source\<close>

text \<open>
  The four SQL statements of the source, each with its positional arguments:
  \<^item> \<open>SelectCheck h n\<close>: \<open>SELECT expire, owner ... WHERE expire > $1 AND name = $2
    ORDER BY block_timestamp DESC LIMIT 1\<close>;
  \<^item> \<open>SelectEntries n\<close>: \<open>SELECT DISTINCT on (chain) chain, address ... WHERE name = $1
    ORDER BY chain, block_timestamp DESC\<close>;
  \<^item> \<open>SelectByAddress a\<close>: \<open>SELECT DISTINCT on (name) name ... WHERE address = $1\<close>;
  \<^item> \<open>SelectByOwner a\<close>: \<open>SELECT DISTINCT on (name) name ... WHERE owner = $1\<close>.
\<close>

datatype query =
    SelectCheck int string
  | SelectEntries string
  | SelectByAddress string
  | SelectByOwner string

datatype error = QueryError nat | ScanError nat | ColumnMismatch

text \<open>
  A delivered row carries the selected columns, or is a row on which \<open>rows.Scan\<close>
  returns an error. A failed \<open>Scan\<close> is modelled as writing none of its destinations.
\<close>

datatype row =
    ExpireOwner int string
  | ChainAddress string string
  | Name string
  | Unscannable error

text \<open>
  \<open>db.Query\<close>: it answers a statement with an error or with the rows that
  \<open>rows.Next\<close> then delivers, and may change the state \<open>'s\<close> of the data source.
\<close>

type_synonym 's data_source = "query \<Rightarrow> 's \<Rightarrow> (error + row list) \<times> 's"

fun scan_expire_owner :: "row \<Rightarrow> error + int \<times> string" where
  "scan_expire_owner (ExpireOwner e ow) = Inr (e, ow)"
| "scan_expire_owner (Unscannable err) = Inl err"
| "scan_expire_owner _ = Inl ColumnMismatch"

fun scan_chain_address :: "row \<Rightarrow> error + string \<times> string" where
  "scan_chain_address (ChainAddress c a) = Inr (c, a)"
| "scan_chain_address (Unscannable err) = Inl err"
| "scan_chain_address _ = Inl ColumnMismatch"

fun scan_name :: "row \<Rightarrow> error + string" where
  "scan_name (Name n) = Inr n"
| "scan_name (Unscannable err) = Inl err"
| "scan_name _ = Inl ColumnMismatch"

subsection \<open>The structs\<close>

record THORNameEntry =
  Chain :: string
  Address :: string

record THORName =
  Owner :: string
  Expire :: int
  Entries :: "THORNameEntry list"

text \<open>The zero value of the named result \<open>tName\<close>.\<close>

definition zero_THORName :: THORName where
  "zero_THORName = \<lparr>Owner = '''', Expire = 0, Entries = []\<rparr>"

subsection \<open>CheckTHORName\<close>

text \<open>
  The loop over \<open>rows.Next\<close> scans the first row only (\<open>break\<close>). Results are the Go
  pair \<open>(tName, err)\<close>, with \<open>None\<close> for a nil error, and the state of the data source
  after the call.
\<close>

definition CheckTHORName ::
  "'s data_source \<Rightarrow> int \<Rightarrow> string \<Rightarrow> 's \<Rightarrow> (THORName \<times> error option) \<times> 's" where
  "CheckTHORName Query currentHeight nm s =
     (case Query (SelectCheck currentHeight nm) s of
        (Inl err, s') \<Rightarrow> ((zero_THORName, Some err), s')
      | (Inr rows, s') \<Rightarrow>
          (case rows of
             [] \<Rightarrow> ((zero_THORName, None), s')
           | r # _ \<Rightarrow>
               (case scan_expire_owner r of
                  Inl err \<Rightarrow> ((zero_THORName, Some err), s')
                | Inr (e, ow) \<Rightarrow> ((zero_THORName\<lparr>Expire := e, Owner := ow\<rparr>, None), s'))))"

subsection \<open>GetTHORName\<close>

fun scan_entries :: "THORName \<Rightarrow> row list \<Rightarrow> THORName \<times> error option" where
  "scan_entries tName [] = (tName, None)"
| "scan_entries tName (r # rows) =
     (case scan_chain_address r of
        Inl err \<Rightarrow> (tName, Some err)
      | Inr (c, a) \<Rightarrow>
          scan_entries (tName\<lparr>Entries := Entries tName @ [\<lparr>Chain = c, Address = a\<rparr>]\<rparr>) rows)"

definition GetTHORName ::
  "'s data_source \<Rightarrow> int \<Rightarrow> string \<Rightarrow> 's \<Rightarrow> (THORName \<times> error option) \<times> 's" where
  "GetTHORName Query currentHeight nm s =
     (case CheckTHORName Query currentHeight nm s of
        ((tName, Some err), s1) \<Rightarrow> ((tName, Some err), s1)
      | ((tName, None), s1) \<Rightarrow>
          if Owner tName = '''' then ((tName, None), s1)
          else
            (case Query (SelectEntries nm) s1 of
               (Inl err, s2) \<Rightarrow> ((tName, Some err), s2)
             | (Inr rows, s2) \<Rightarrow> (scan_entries tName rows, s2)))"

subsection \<open>GetTHORNamesByAddress\<close>

text \<open>
  The loop over the candidate rows. A candidate whose \<open>GetTHORName\<close> returns an error
  is skipped (\<open>continue\<close>); the inner loop appends the name at the first entry with the
  queried address.
\<close>

fun names_by_address ::
  "'s data_source \<Rightarrow> int \<Rightarrow> string \<Rightarrow> row list \<Rightarrow> string list \<Rightarrow> 's \<Rightarrow>
     (string list \<times> error option) \<times> 's" where
  "names_by_address Query currentHeight addr [] names s = ((names, None), s)"
| "names_by_address Query currentHeight addr (r # rows) names s =
     (case scan_name r of
        Inl err \<Rightarrow> (([], Some err), s)
      | Inr nm \<Rightarrow>
          (case GetTHORName Query currentHeight nm s of
             ((tName, Some err), s') \<Rightarrow> names_by_address Query currentHeight addr rows names s'
           | ((tName, None), s') \<Rightarrow>
               names_by_address Query currentHeight addr rows
                 (if list_ex (\<lambda>e. Address e = addr) (Entries tName) then names @ [nm] else names)
                 s'))"

definition GetTHORNamesByAddress ::
  "'s data_source \<Rightarrow> int \<Rightarrow> string \<Rightarrow> 's \<Rightarrow> (string list \<times> error option) \<times> 's" where
  "GetTHORNamesByAddress Query currentHeight addr s =
     (case Query (SelectByAddress addr) s of
        (Inl err, s') \<Rightarrow> (([], Some err), s')
      | (Inr rows, s') \<Rightarrow> names_by_address Query currentHeight addr rows [] s')"

subsection \<open>GetTHORNamesByOwnerAddress\<close>

fun names_by_owner ::
  "'s data_source \<Rightarrow> int \<Rightarrow> string \<Rightarrow> row list \<Rightarrow> string list \<Rightarrow> 's \<Rightarrow>
     (string list \<times> error option) \<times> 's" where
  "names_by_owner Query currentHeight addr [] names s = ((names, None), s)"
| "names_by_owner Query currentHeight addr (r # rows) names s =
     (case scan_name r of
        Inl err \<Rightarrow> (([], Some err), s)
      | Inr nm \<Rightarrow>
          (case CheckTHORName Query currentHeight nm s of
             ((tName, err), s') \<Rightarrow>
               if err \<noteq> None \<and> Owner tName = '''' then
                 names_by_owner Query currentHeight addr rows names s'
               else
                 names_by_owner Query currentHeight addr rows
                   (if Owner tName = addr then names @ [nm] else names) s'))"

definition GetTHORNamesByOwnerAddress ::
  "'s data_source \<Rightarrow> int \<Rightarrow> string \<Rightarrow> 's \<Rightarrow> (string list \<times> error option) \<times> 's" where
  "GetTHORNamesByOwnerAddress Query currentHeight addr s =
     (case Query (SelectByOwner addr) s of
        (Inl err, s') \<Rightarrow> (([], Some err), s')
      | (Inr rows, s') \<Rightarrow> names_by_owner Query currentHeight addr rows [] s')"

subsection \<open>The table as a data source\<close>

text \<open>
  What the four statements select from a table. \<open>ORDER BY\<close> is a stable sort of the
  rows in storage order, so rows with equal keys keep that order (PostgreSQL leaves the
  order of ties open). \<open>DISTINCT ON (k)\<close> keeps the first row of every run of rows with
  the same \<open>k\<close> in the sorted result; without an \<open>ORDER BY\<close> the rows are sorted by \<open>k\<close>.
\<close>

fun distinct_on :: "('a \<Rightarrow> 'k) \<Rightarrow> 'a list \<Rightarrow> 'a list" where
  "distinct_on k [] = []"
| "distinct_on k [x] = [x]"
| "distinct_on k (x # y # xs) =
     (if k x = k y then distinct_on k (x # xs) else x # distinct_on k (y # xs))"

definition order_by_timestamp_desc :: "change_event list \<Rightarrow> change_event list" where
  "order_by_timestamp_desc = sort_key (\<lambda>e. - block_timestamp e)"

fun select :: "query \<Rightarrow> thorname_change_events \<Rightarrow> row list" where
  "select (SelectCheck h n) tbl =
     map (\<lambda>e. ExpireOwner (expire e) (owner e))
       (take 1 (order_by_timestamp_desc (filter (\<lambda>e. expire e > h \<and> name e = n) tbl)))"
| "select (SelectEntries n) tbl =
     map (\<lambda>e. ChainAddress (chain e) (address e))
       (distinct_on chain
          (sort_key chain (order_by_timestamp_desc (filter (\<lambda>e. name e = n) tbl))))"
| "select (SelectByAddress a) tbl =
     map (\<lambda>e. Name (name e))
       (distinct_on name (sort_key name (filter (\<lambda>e. address e = a) tbl)))"
| "select (SelectByOwner a) tbl =
     map (\<lambda>e. Name (name e))
       (distinct_on name (sort_key name (filter (\<lambda>e. owner e = a) tbl)))"

text \<open>A data source that answers every statement from the table and leaves it as it is.\<close>

definition table_source :: "thorname_change_events data_source" where
  "table_source q tbl = (Inr (select q tbl), tbl)"

text \<open>
  A data source on which the statements of \<open>bad\<close> fail with \<open>err\<close>; the others are
  answered from the table.
\<close>

definition failing_source ::
  "(query \<Rightarrow> bool) \<Rightarrow> error \<Rightarrow> thorname_change_events data_source" where
  "failing_source bad err q tbl = (if bad q then (Inl err, tbl) else table_source q tbl)"


subsection \<open>Auxiliary notions for the statements\<close>

text \<open>
  A data source is read-only in state \<open>s\<close> when answering a statement leaves \<open>s\<close> as it
  is: the event log is unchanged by the round trip.
\<close>

definition read_only :: "'s data_source \<Rightarrow> 's \<Rightarrow> bool" where
  "read_only Query s = (\<forall>q. snd (Query q s) = s)"

text \<open>The rows that the \<open>WHERE\<close> clause of \<open>CheckTHORName\<close> keeps.\<close>

definition live_events :: "int \<Rightarrow> string \<Rightarrow> thorname_change_events \<Rightarrow> change_event list" where
  "live_events h n tbl = filter (\<lambda>e. expire e > h \<and> name e = n) tbl"

text \<open>The rows that the statement of \<open>GetTHORName\<close> selects, before the projection.\<close>

definition latest_per_chain :: "string \<Rightarrow> thorname_change_events \<Rightarrow> change_event list" where
  "latest_per_chain n tbl =
     distinct_on chain (sort_key chain (order_by_timestamp_desc (filter (\<lambda>e. name e = n) tbl)))"

text \<open>
  The names that a candidate statement selects: the distinct names of the rows whose
  column \<open>col\<close> (\<open>address\<close> or \<open>owner\<close>) is \<open>a\<close>.
\<close>

definition candidates ::
  "(change_event \<Rightarrow> string) \<Rightarrow> string \<Rightarrow> thorname_change_events \<Rightarrow> string list" where
  "candidates col a tbl =
     map name (distinct_on name (sort_key name (filter (\<lambda>e. col e = a) tbl)))"

text \<open>
  The test of the loop of \<open>GetTHORNamesByAddress\<close> on candidate \<open>n\<close>: \<open>GetTHORName\<close>
  returns no error and one of its entries has the address \<open>a\<close>.
\<close>

definition bound_to :: "'s data_source \<Rightarrow> int \<Rightarrow> string \<Rightarrow> 's \<Rightarrow> string \<Rightarrow> bool" where
  "bound_to Query h a s n =
     (snd (fst (GetTHORName Query h n s)) = None \<and>
      list_ex (\<lambda>e. Address e = a) (Entries (fst (fst (GetTHORName Query h n s)))))"

text \<open>
  The test of the loop of \<open>GetTHORNamesByOwnerAddress\<close> on candidate \<open>n\<close>: the
  candidate is not skipped and the owner that \<open>CheckTHORName\<close> returns is \<open>a\<close>.
\<close>

definition owned_by :: "'s data_source \<Rightarrow> int \<Rightarrow> string \<Rightarrow> 's \<Rightarrow> string \<Rightarrow> bool" where
  "owned_by Query h a s n =
     (\<not> (snd (fst (CheckTHORName Query h n s)) \<noteq> None \<and>
          Owner (fst (fst (CheckTHORName Query h n s))) = '''') \<and>
      Owner (fst (fst (CheckTHORName Query h n s))) = a)"

subsection \<open>Example tables\<close>

text \<open>
  The scenario of the specification: \<open>alice\<close> registered on THOR, with an ETH address,
  both rows expiring at height 1000.
\<close>

definition alice_tbl :: thorname_change_events where
  "alice_tbl =
     [\<lparr>name = ''alice'', chain = ''THOR'', address = ''thor1x'', owner = ''thor1x'',
       expire = 1000, block_timestamp = 1\<rparr>,
      \<lparr>name = ''alice'', chain = ''ETH'', address = ''0xAB'', owner = ''thor1x'',
       expire = 1000, block_timestamp = 2\<rparr>]"


text \<open>A THOR row that expires at 1000 and a later ETH row that expires at 2000.\<close>

definition root_expired_tbl :: thorname_change_events where
  "root_expired_tbl =
     [\<lparr>name = ''alice'', chain = ''THOR'', address = ''thor1x'', owner = ''thor1x'',
       expire = 1000, block_timestamp = 1\<rparr>,
      \<lparr>name = ''alice'', chain = ''ETH'', address = ''0xAB'', owner = ''thor1x'',
       expire = 2000, block_timestamp = 2\<rparr>]"

text \<open>A name registered with an empty owner field, expired at height 10.\<close>

definition ownerless_tbl :: thorname_change_events where
  "ownerless_tbl =
     [\<lparr>name = ''bob'', chain = ''THOR'', address = ''thor1y'', owner = '''',
       expire = 10, block_timestamp = 1\<rparr>]"

text \<open>Data sources on which one kind of statement fails.\<close>

definition alice_check_fails :: "thorname_change_events data_source" where
  "alice_check_fails = failing_source (\<lambda>q. q = SelectCheck 500 ''alice'') (QueryError 1)"

definition alice_entries_fail :: "thorname_change_events data_source" where
  "alice_entries_fail = failing_source (\<lambda>q. q = SelectEntries ''alice'') (QueryError 2)"

definition all_fail :: "thorname_change_events data_source" where
  "all_fail = failing_source (\<lambda>q. True) (QueryError 3)"

section \<open>Lemmas\<close>

subsection \<open>Sorting and \<open>DISTINCT ON\<close>\<close>

lemma sort_key_Cons_least:
  assumes "sort_key f xs = y # ys"
  shows "y \<in> set xs \<and> (\<forall>x\<in>set xs. f y \<le> f x)"
proof -
  have "sorted (map f (sort_key f xs))" by (rule sorted_sort_key)
  with assms have "\<forall>x\<in>set ys. f y \<le> f x" by simp
  moreover have "set xs = set (y # ys)" using assms set_sort[of f xs] by simp
  ultimately show ?thesis by auto
qed

lemma distinct_on_subset: "set (distinct_on k xs) \<subseteq> set xs"
  by (induction k xs rule: distinct_on.induct) auto

lemma distinct_on_keys: "k ` set (distinct_on k xs) = k ` set xs"
  by (induction k xs rule: distinct_on.induct) auto

lemma distinct_on_sorted:
  "sorted (map k xs) \<Longrightarrow> sorted (map k (distinct_on k xs)) \<and> distinct (map k (distinct_on k xs))"
proof (induction k xs rule: distinct_on.induct)
  case (3 k x y xs)
  show ?case
  proof (cases "k x = k y")
    case True
    with 3 show ?thesis by simp
  next
    case False
    from 3(3) have lt: "k x < k y" using False by (simp add: less_le)
    from 3(3) have sy: "sorted (map k (y # xs))" by simp
    then have ge: "\<forall>z\<in>set (y # xs). k y \<le> k z" by auto
    have sub: "set (distinct_on k (y # xs)) \<subseteq> set (y # xs)" by (rule distinct_on_subset)
    from 3(2)[OF False sy] have ih: "sorted (map k (distinct_on k (y # xs)))"
      "distinct (map k (distinct_on k (y # xs)))" by simp_all
    have "\<forall>z\<in>set (distinct_on k (y # xs)). k x < k z"
      using sub ge lt by fastforce
    with ih False show ?thesis by (auto simp: less_imp_le)
  qed
qed simp_all

lemma distinct_on_first:
  "sorted (map k xs) \<Longrightarrow> z \<in> set (distinct_on k xs) \<Longrightarrow>
     filter (\<lambda>y. k y = k z) xs = z # tl (filter (\<lambda>y. k y = k z) xs)"
proof (induction k xs rule: distinct_on.induct)
  case (3 k x y xs)
  show ?case
  proof (cases "k x = k y")
    case True
    from 3(3) have sx: "sorted (map k (x # xs))" by auto
    from 3(4) True have zin: "z \<in> set (distinct_on k (x # xs))" by simp
    from 3(1)[OF True sx zin] show ?thesis using True by (auto split: if_splits)
  next
    case False
    from 3(3) have lt: "k x < k y" using False by (simp add: less_le)
    from 3(3) have sy: "sorted (map k (y # xs))" by simp
    then have ge: "\<forall>w\<in>set (y # xs). k y \<le> k w" by auto
    from 3(4) False have "z = x \<or> z \<in> set (distinct_on k (y # xs))" by simp
    then show ?thesis
    proof
      assume "z = x" then show ?thesis by simp
    next
      assume zin: "z \<in> set (distinct_on k (y # xs))"
      with distinct_on_subset[of k "y # xs"] have "z \<in> set (y # xs)" by blast
      with ge lt have ne: "k x \<noteq> k z" by fastforce
      from 3(2)[OF False sy zin] ne show ?thesis by simp
    qed
  qed
qed simp_all

subsection \<open>The operations leave a read-only data source as it is\<close>

lemma read_only_table_source: "read_only table_source tbl"
  by (simp add: read_only_def table_source_def)

lemma read_only_failing_source: "read_only (failing_source bad err) tbl"
  by (simp add: read_only_def failing_source_def table_source_def)

lemma read_only_Query: "read_only Query s \<Longrightarrow> Query q s = (a, s') \<Longrightarrow> s' = s"
  by (auto simp: read_only_def dest: spec[of _ q])

lemma CheckTHORName_state: "read_only Query s \<Longrightarrow> snd (CheckTHORName Query h n s) = s"
  by (auto simp: CheckTHORName_def split: prod.splits sum.splits list.splits
           dest: read_only_Query)

lemma GetTHORName_state: "read_only Query s \<Longrightarrow> snd (GetTHORName Query h n s) = s"
proof -
  assume ro: "read_only Query s"
  obtain t err s1 where c: "CheckTHORName Query h n s = ((t, err), s1)"
    by (metis surj_pair)
  with CheckTHORName_state[OF ro, of h n] have s1: "s1 = s" by simp
  show ?thesis using c s1 ro
    by (auto simp: GetTHORName_def split: prod.splits sum.splits option.splits
             dest: read_only_Query)
qed

lemma names_by_address_state:
  "read_only Query s \<Longrightarrow> snd (names_by_address Query h a rows names s) = s"
proof (induction rows arbitrary: names)
  case Nil
  then show ?case by simp
next
  case (Cons r rows)
  obtain t err s1 where g: "GetTHORName Query h (projr (scan_name r)) s = ((t, err), s1)"
    by (metis surj_pair)
  with GetTHORName_state[OF Cons.prems, of h "projr (scan_name r)"] have "s1 = s" by simp
  with g Cons show ?case
    by (cases "scan_name r"; cases err) auto
qed

lemma names_by_owner_state:
  "read_only Query s \<Longrightarrow> snd (names_by_owner Query h a rows names s) = s"
proof (induction rows arbitrary: names)
  case Nil
  then show ?case by simp
next
  case (Cons r rows)
  obtain t err s1 where g: "CheckTHORName Query h (projr (scan_name r)) s = ((t, err), s1)"
    by (metis surj_pair)
  with CheckTHORName_state[OF Cons.prems, of h "projr (scan_name r)"] have "s1 = s" by simp
  with g Cons show ?case
    by (cases "scan_name r") auto
qed

lemma GetTHORNamesByAddress_state:
  "read_only Query s \<Longrightarrow> snd (GetTHORNamesByAddress Query h a s) = s"
proof -
  assume ro: "read_only Query s"
  obtain ans s1 where q: "Query (SelectByAddress a) s = (ans, s1)"
    by (metis surj_pair)
  with read_only_Query[OF ro] have "s1 = s" by simp
  with q ro show ?thesis
    by (cases ans) (simp_all add: GetTHORNamesByAddress_def names_by_address_state)
qed

lemma GetTHORNamesByOwnerAddress_state:
  "read_only Query s \<Longrightarrow> snd (GetTHORNamesByOwnerAddress Query h a s) = s"
proof -
  assume ro: "read_only Query s"
  obtain ans s1 where q: "Query (SelectByOwner a) s = (ans, s1)"
    by (metis surj_pair)
  with read_only_Query[OF ro] have "s1 = s" by simp
  with q ro show ?thesis
    by (cases ans) (simp_all add: GetTHORNamesByOwnerAddress_def names_by_owner_state)
qed

subsection \<open>The resolver and the lookup of a name\<close>

lemma CheckTHORName_table:
  "CheckTHORName table_source h n tbl =
     (((case order_by_timestamp_desc (live_events h n tbl) of
         [] \<Rightarrow> zero_THORName
       | e # _ \<Rightarrow> zero_THORName\<lparr>Expire := expire e, Owner := owner e\<rparr>), None), tbl)"
  by (simp add: CheckTHORName_def table_source_def live_events_def split: list.splits)

lemma scan_entries_rows:
  "scan_entries t (map (\<lambda>e. ChainAddress (chain e) (address e)) es) =
     (t\<lparr>Entries := Entries t @ map (\<lambda>e. \<lparr>Chain = chain e, Address = address e\<rparr>) es\<rparr>, None)"
  by (induction es arbitrary: t) simp_all

lemma GetTHORName_table:
  "GetTHORName table_source h n tbl =
     (let t = fst (fst (CheckTHORName table_source h n tbl)) in
      if Owner t = '''' then ((t, None), tbl)
      else ((t\<lparr>Entries := map (\<lambda>e. \<lparr>Chain = chain e, Address = address e\<rparr>)
                               (latest_per_chain n tbl)\<rparr>, None), tbl))"
  by (simp add: GetTHORName_def CheckTHORName_table table_source_def scan_entries_rows
        latest_per_chain_def zero_THORName_def Let_def split: list.splits)

lemma live_events_empty:
  "\<forall>e\<in>set tbl. name e = n \<longrightarrow> expire e \<le> h \<Longrightarrow> live_events h n tbl = []"
  by (auto simp: live_events_def filter_empty_conv)

lemma CheckTHORName_absent:
  "\<forall>e\<in>set tbl. name e = n \<longrightarrow> expire e \<le> h \<Longrightarrow>
   CheckTHORName table_source h n tbl = ((zero_THORName, None), tbl)"
  by (simp add: CheckTHORName_table live_events_empty order_by_timestamp_desc_def)

lemma CheckTHORName_error_zero:
  "CheckTHORName Query h n s = ((t, Some err), s') \<Longrightarrow> t = zero_THORName"
  by (auto simp: CheckTHORName_def split: prod.splits sum.splits list.splits)

lemma CheckTHORName_Entries: "Entries (fst (fst (CheckTHORName Query h n s))) = []"
  by (auto simp: CheckTHORName_def zero_THORName_def split: prod.splits sum.splits list.splits)

lemma scan_entries_Owner: "Owner (fst (scan_entries t rows)) = Owner t"
  by (induction t rows rule: scan_entries.induct) (auto split: sum.splits)

lemma GetTHORName_not_found:
  "snd (fst (CheckTHORName Query h n s)) \<noteq> None \<or>
   Owner (fst (fst (CheckTHORName Query h n s))) = '''' \<Longrightarrow>
   GetTHORName Query h n s = CheckTHORName Query h n s"
  by (auto simp: GetTHORName_def split: prod.splits option.splits)

lemma GetTHORName_Owner:
  "Owner (fst (fst (GetTHORName Query h n s))) = Owner (fst (fst (CheckTHORName Query h n s)))"
  by (auto simp: GetTHORName_def scan_entries_Owner split: prod.splits option.splits sum.splits)

lemma GetTHORName_error:
  "snd (fst (CheckTHORName Query h n s)) \<noteq> None \<Longrightarrow> snd (fst (GetTHORName Query h n s)) \<noteq> None"
  by (auto simp: GetTHORName_def split: prod.splits option.splits)

lemma not_bound_to:
  assumes "snd (fst (GetTHORName Query h n s)) \<noteq> None \<or>
           Owner (fst (fst (GetTHORName Query h n s))) = ''''"
  shows "\<not> bound_to Query h a s n"
proof (cases "snd (fst (GetTHORName Query h n s)) \<noteq> None")
  case True
  then show ?thesis by (simp add: bound_to_def)
next
  case False
  with assms have ow: "Owner (fst (fst (CheckTHORName Query h n s))) = ''''"
    by (simp add: GetTHORName_Owner)
  then have "GetTHORName Query h n s = CheckTHORName Query h n s"
    by (simp add: GetTHORName_not_found)
  then show ?thesis by (simp add: bound_to_def CheckTHORName_Entries)
qed

lemma CheckTHORName_selects_latest_live:
  "\<exists>t. CheckTHORName table_source h n tbl = ((t, None), tbl) \<and>
     ((\<not> (\<exists>e\<in>set tbl. expire e > h \<and> name e = n) \<and> t = zero_THORName) \<or>
      (\<exists>e\<in>set tbl. expire e > h \<and> name e = n \<and>
         (\<forall>e'\<in>set tbl. expire e' > h \<and> name e' = n \<longrightarrow>
            block_timestamp e' \<le> block_timestamp e) \<and>
         t = zero_THORName\<lparr>Expire := expire e, Owner := owner e\<rparr>))"
proof (cases "order_by_timestamp_desc (live_events h n tbl)")
  case Nil
  then have "set (live_events h n tbl) = {}"
    unfolding order_by_timestamp_desc_def by (metis set_sort set_empty2)
  then have "\<not> (\<exists>e\<in>set tbl. expire e > h \<and> name e = n)"
    by (auto simp: live_events_def filter_empty_conv)
  with Nil show ?thesis by (simp add: CheckTHORName_table)
next
  case (Cons y ys)
  from sort_key_Cons_least[OF Cons[unfolded order_by_timestamp_desc_def]]
  have y: "y \<in> set (live_events h n tbl)"
    and l: "\<forall>x\<in>set (live_events h n tbl). block_timestamp x \<le> block_timestamp y"
    by simp_all
  from y l have "y \<in> set tbl \<and> expire y > h \<and> name y = n \<and>
         (\<forall>e'\<in>set tbl. expire e' > h \<and> name e' = n \<longrightarrow>
            block_timestamp e' \<le> block_timestamp y)"
    by (simp add: live_events_def)
  with Cons show ?thesis by (auto simp: CheckTHORName_table)
qed

lemma Entries_GetTHORName_table:
  "Entries (fst (fst (GetTHORName table_source h n tbl))) =
     (if Owner (fst (fst (CheckTHORName table_source h n tbl))) = '''' then []
      else map (\<lambda>e. \<lparr>Chain = chain e, Address = address e\<rparr>) (latest_per_chain n tbl))"
  by (simp add: GetTHORName_table Let_def CheckTHORName_Entries)

lemma CheckTHORName_query_error:
  "Query (SelectCheck h n) s = (Inl err, s') \<Longrightarrow>
   CheckTHORName Query h n s = ((zero_THORName, Some err), s')"
  by (simp add: CheckTHORName_def)

lemma GetTHORName_check_error:
  "CheckTHORName Query h n s = ((t, Some err), s') \<Longrightarrow>
   GetTHORName Query h n s = ((t, Some err), s')"
  by (simp add: GetTHORName_def)

lemma GetTHORName_entries_error:
  "CheckTHORName Query h n s = ((t, None), s1) \<Longrightarrow> Owner t \<noteq> '''' \<Longrightarrow>
   Query (SelectEntries n) s1 = (Inl err, s2) \<Longrightarrow>
   GetTHORName Query h n s = ((t, Some err), s2)"
  by (simp add: GetTHORName_def)

subsection \<open>The loops over the candidates\<close>

lemma names_by_address_read_only:
  "read_only Query s \<Longrightarrow>
   names_by_address Query h a (map Name cands) names s =
     ((names @ filter (bound_to Query h a s) cands, None), s)"
proof (induction cands arbitrary: names)
  case Nil
  then show ?case by simp
next
  case (Cons n cands)
  obtain t err s1 where g: "GetTHORName Query h n s = ((t, err), s1)"
    by (metis surj_pair)
  with GetTHORName_state[OF Cons.prems, of h n] have s1: "s1 = s" by simp
  show ?case
    using g s1 Cons.IH[OF Cons.prems] by (cases err) (simp_all add: bound_to_def)
qed

lemma names_by_owner_read_only:
  "read_only Query s \<Longrightarrow>
   names_by_owner Query h a (map Name cands) names s =
     ((names @ filter (owned_by Query h a s) cands, None), s)"
proof (induction cands arbitrary: names)
  case Nil
  then show ?case by simp
next
  case (Cons n cands)
  obtain t err s1 where g: "CheckTHORName Query h n s = ((t, err), s1)"
    by (metis surj_pair)
  with CheckTHORName_state[OF Cons.prems, of h n] have s1: "s1 = s" by simp
  show ?case
    using g s1 Cons.IH[OF Cons.prems] by (simp add: owned_by_def)
qed

lemma names_by_address_sound:
  "read_only Query s \<Longrightarrow>
   n \<in> set (fst (fst (names_by_address Query h a rows names s))) \<Longrightarrow>
   n \<in> set names \<or> bound_to Query h a s n"
proof (induction rows arbitrary: names)
  case Nil
  then show ?case by simp
next
  case (Cons r rows)
  show ?case
  proof (cases "scan_name r")
    case (Inl err)
    with Cons.prems show ?thesis by simp
  next
    case (Inr m)
    obtain t err s1 where g: "GetTHORName Query h m s = ((t, err), s1)"
      by (metis surj_pair)
    with GetTHORName_state[OF Cons.prems(1), of h m] have s1: "s1 = s" by simp
    show ?thesis
    proof (cases err)
      case None
      let ?names = "if list_ex (\<lambda>e. Address e = a) (Entries t) then names @ [m] else names"
      from Cons.prems(2) Inr g s1 None
      have "n \<in> set (fst (fst (names_by_address Query h a rows ?names s)))" by simp
      from Cons.IH[OF Cons.prems(1) this]
      show ?thesis using g None by (auto simp: bound_to_def split: if_splits)
    next
      case (Some e)
      from Cons.prems(2) Inr g s1 Some
      have "n \<in> set (fst (fst (names_by_address Query h a rows names s)))" by simp
      from Cons.IH[OF Cons.prems(1) this] show ?thesis .
    qed
  qed
qed

lemma names_by_owner_Cons:
  "scan_name r = Inr m \<Longrightarrow> CheckTHORName Query h m s = ((t, err), s') \<Longrightarrow>
   names_by_owner Query h a (r # rows) names s =
     names_by_owner Query h a rows
       (if err \<noteq> None \<and> Owner t = [] then names
        else if Owner t = a then names @ [m] else names) s'"
  by simp

lemma names_by_owner_sound:
  "read_only Query s \<Longrightarrow>
   n \<in> set (fst (fst (names_by_owner Query h a rows names s))) \<Longrightarrow>
   n \<in> set names \<or> owned_by Query h a s n"
proof (induction rows arbitrary: names)
  case Nil
  then show ?case by simp
next
  case (Cons r rows)
  show ?case
  proof (cases "scan_name r")
    case (Inl err)
    with Cons.prems show ?thesis by simp
  next
    case (Inr m)
    obtain t err s1 where g: "CheckTHORName Query h m s = ((t, err), s1)"
      by (metis surj_pair)
    with CheckTHORName_state[OF Cons.prems(1), of h m] have s1: "s1 = s" by simp
    let ?names = "if err \<noteq> None \<and> Owner t = [] then names
                  else if Owner t = a then names @ [m] else names"
    from Cons.prems(2) names_by_owner_Cons[OF Inr g] s1
    have "n \<in> set (fst (fst (names_by_owner Query h a rows ?names s)))"
      by (simp del: names_by_owner.simps)
    from Cons.IH[OF Cons.prems(1) this]
    show ?thesis using g by (auto simp: owned_by_def split: if_splits)
  qed
qed

lemma select_by_address: "select (SelectByAddress a) tbl = map Name (candidates address a tbl)"
  by (simp add: candidates_def)

lemma select_by_owner: "select (SelectByOwner a) tbl = map Name (candidates owner a tbl)"
  by (simp add: candidates_def)

lemma set_candidates: "set (candidates col a tbl) = name ` {e \<in> set tbl. col e = a}"
  by (simp add: candidates_def distinct_on_keys)

lemma distinct_candidates: "distinct (candidates col a tbl)"
  unfolding candidates_def
  using distinct_on_sorted[of name "sort_key name (filter (\<lambda>e. col e = a) tbl)"]
  by (simp add: sorted_sort_key)

lemma GetTHORNamesByAddress_table:
  "GetTHORNamesByAddress table_source h a tbl =
     ((filter (bound_to table_source h a tbl) (candidates address a tbl), None), tbl)"
  using names_by_address_read_only[OF read_only_table_source, of h a "candidates address a tbl" "[]" tbl]
  by (simp add: GetTHORNamesByAddress_def table_source_def select_by_address del: select.simps)

lemma GetTHORNamesByOwnerAddress_table:
  "GetTHORNamesByOwnerAddress table_source h a tbl =
     ((filter (owned_by table_source h a tbl) (candidates owner a tbl), None), tbl)"
  using names_by_owner_read_only[OF read_only_table_source, of h a "candidates owner a tbl" "[]" tbl]
  by (simp add: GetTHORNamesByOwnerAddress_def table_source_def select_by_owner del: select.simps)

lemma names_by_address_skip:
  "scan_name r = Inr m \<Longrightarrow> GetTHORName Query h m s = ((t, Some err), s') \<Longrightarrow>
   names_by_address Query h a (r # rows) names s = names_by_address Query h a rows names s'"
  by simp

lemma names_by_owner_skip:
  "scan_name r = Inr m \<Longrightarrow> CheckTHORName Query h m s = ((t, Some err), s') \<Longrightarrow>
   names_by_owner Query h a (r # rows) names s = names_by_owner Query h a rows names s'"
  using CheckTHORName_error_zero[of Query h m s t err s']
  by (simp add: zero_THORName_def)

subsection \<open>The per-chain snapshot\<close>



lemma latest_per_chain_latest:
  assumes "z \<in> set (latest_per_chain n tbl)"
  shows "z \<in> set tbl \<and> name z = n \<and>
         (\<forall>e\<in>set tbl. name e = n \<and> chain e = chain z \<longrightarrow> block_timestamp e \<le> block_timestamp z)"
proof -
  let ?F = "filter (\<lambda>e. name e = n) tbl"
  let ?ys = "order_by_timestamp_desc ?F"
  let ?xs = "sort_key chain ?ys"
  let ?G = "filter (\<lambda>y. chain y = chain z) ?ys"
  have "filter (\<lambda>y. chain y = chain z) ?xs = z # tl (filter (\<lambda>y. chain y = chain z) ?xs)"
    using assms unfolding latest_per_chain_def
    by (intro distinct_on_first) (simp_all add: sorted_sort_key)
  then have G: "?G = z # tl ?G" by (simp add: sort_key_stable)
  have "sorted (map (\<lambda>e. - block_timestamp e) ?ys)"
    unfolding order_by_timestamp_desc_def by (rule sorted_sort_key)
  then have "sorted (map (\<lambda>e. - block_timestamp e) ?G)" by (rule sorted_filter)
  with G have "sorted (map (\<lambda>e. - block_timestamp e) (z # tl ?G))" by simp
  then have le: "\<forall>e\<in>set (tl ?G). block_timestamp e \<le> block_timestamp z" by simp
  have setG: "set ?G = {e \<in> set tbl. name e = n \<and> chain e = chain z}"
    by (auto simp: order_by_timestamp_desc_def)
  have zG: "z \<in> set ?G" using G by (metis list.set_intros(1))
  have "\<forall>e\<in>set ?G. block_timestamp e \<le> block_timestamp z"
  proof
    fix e assume "e \<in> set ?G"
    then have "e \<in> set (z # tl ?G)" using G by simp
    then show "block_timestamp e \<le> block_timestamp z" using le by auto
  qed
  with zG setG show ?thesis by auto
qed

subsection \<open>What the lookup by address guarantees\<close>

text \<open>
  \<open>GetTHORNamesByAddress\<close> includes a name \<open>n\<close> only if \<open>GetTHORName\<close> of \<open>n\<close>
  returns no error and one of its entries has the queried address \<open>a\<close>. On the
  table: when the rows that bind \<open>a\<close> to \<open>n\<close> are all on chain \<open>c\<close> and all earlier
  than a row \<open>e2\<close> that binds chain \<open>c\<close> of \<open>n\<close> to another address, the result for
  \<open>a\<close> does not include \<open>n\<close>.
\<close>

lemma GetTHORNamesByAddress_revalidated:
  "(read_only Query s \<and> n \<in> set (fst (fst (GetTHORNamesByAddress Query h a s))) \<longrightarrow>
      snd (fst (GetTHORName Query h n s)) = None \<and>
      (\<exists>en\<in>set (Entries (fst (fst (GetTHORName Query h n s)))). Address en = a)) \<and>
   (e2 \<in> set tbl \<and> name e2 = n \<and> chain e2 = c \<and> address e2 \<noteq> a \<and>
    (\<forall>e\<in>set tbl. name e = n \<and> address e = a \<longrightarrow>
       chain e = c \<and> block_timestamp e < block_timestamp e2) \<longrightarrow>
      n \<notin> set (fst (fst (GetTHORNamesByAddress table_source h a tbl))))"
proof -
  have sound: "bound_to Q h a st m"
    if ro: "read_only Q st" and m: "m \<in> set (fst (fst (GetTHORNamesByAddress Q h a st)))"
    for Q :: "'b data_source" and st m
  proof -
    obtain ans s1 where q: "Q (SelectByAddress a) st = (ans, s1)" by (metis surj_pair)
    with read_only_Query[OF ro] have s1: "s1 = st" by simp
    show ?thesis
    proof (cases ans)
      case (Inl err)
      with q m show ?thesis by (simp add: GetTHORNamesByAddress_def)
    next
      case (Inr rows)
      with q s1 m have "m \<in> set (fst (fst (names_by_address Q h a rows [] st)))"
        by (simp add: GetTHORNamesByAddress_def)
      from names_by_address_sound[OF ro this] show ?thesis by simp
    qed
  qed
  have 1: "read_only Query s \<and> n \<in> set (fst (fst (GetTHORNamesByAddress Query h a s))) \<longrightarrow>
      snd (fst (GetTHORName Query h n s)) = None \<and>
      (\<exists>en\<in>set (Entries (fst (fst (GetTHORName Query h n s)))). Address en = a)"
    using sound[of Query s n] by (auto simp: bound_to_def list_ex_iff)
  have 2: "e2 \<in> set tbl \<and> name e2 = n \<and> chain e2 = c \<and> address e2 \<noteq> a \<and>
    (\<forall>e\<in>set tbl. name e = n \<and> address e = a \<longrightarrow>
       chain e = c \<and> block_timestamp e < block_timestamp e2) \<longrightarrow>
      n \<notin> set (fst (fst (GetTHORNamesByAddress table_source h a tbl)))"
  proof (intro impI notI, elim conjE)
    assume e2: "e2 \<in> set tbl" "name e2 = n" "chain e2 = c"
      and only: "\<forall>e\<in>set tbl. name e = n \<and> address e = a \<longrightarrow>
        chain e = c \<and> block_timestamp e < block_timestamp e2"
    assume "n \<in> set (fst (fst (GetTHORNamesByAddress table_source h a tbl)))"
    from sound[OF read_only_table_source this]
    have "\<exists>en\<in>set (Entries (fst (fst (GetTHORName table_source h n tbl)))). Address en = a"
      by (simp add: bound_to_def list_ex_iff)
    then obtain z where z: "z \<in> set (latest_per_chain n tbl)" and za: "address z = a"
      by (auto simp: Entries_GetTHORName_table split: if_splits)
    from latest_per_chain_latest[OF z]
    have zt: "z \<in> set tbl" and zn: "name z = n"
      and zl: "\<forall>e\<in>set tbl. name e = n \<and> chain e = chain z \<longrightarrow>
        block_timestamp e \<le> block_timestamp z"
      by simp_all
    from only zt zn za have "chain z = c" and lt: "block_timestamp z < block_timestamp e2"
      by simp_all
    with zl e2 have "block_timestamp e2 \<le> block_timestamp z" by simp
    with lt show False by simp
  qed
  from 1 2 show ?thesis by (rule conjI)
qed

text \<open>
  On a read-only data source whose candidate statement delivers the names \<open>cands\<close>,
  \<open>GetTHORNamesByAddress\<close> returns no error and the candidates that pass the test of
  the loop; a candidate whose \<open>GetTHORName\<close> returns an error or an empty owner is
  not in the result.
\<close>

lemma GetTHORNamesByAddress_skips_unresolved:
  assumes "read_only Query s" and "Query (SelectByAddress a) s = (Inr (map Name cands), s)"
  shows "GetTHORNamesByAddress Query h a s = ((filter (bound_to Query h a s) cands, None), s) \<and>
         (\<forall>n. snd (fst (GetTHORName Query h n s)) \<noteq> None \<or>
               Owner (fst (fst (GetTHORName Query h n s))) = '''' \<longrightarrow>
               n \<notin> set (fst (fst (GetTHORNamesByAddress Query h a s))))"
proof -
  have r: "GetTHORNamesByAddress Query h a s = ((filter (bound_to Query h a s) cands, None), s)"
    using assms(2) names_by_address_read_only[OF assms(1), of h a cands "[]"]
    by (simp add: GetTHORNamesByAddress_def)
  have "\<forall>n. snd (fst (GetTHORName Query h n s)) \<noteq> None \<or>
               Owner (fst (fst (GetTHORName Query h n s))) = '''' \<longrightarrow>
               n \<notin> set (filter (bound_to Query h a s) cands)"
    using not_bound_to[of Query h _ s a] by auto
  with r show ?thesis by simp
qed

section \<open>The claims\<close>

text \<open>
  Claim C1. The claim: \<open>CheckTHORName\<close> selects only among the rows of the name on the
  root chain whose \<open>expire\<close> is greater than the current height, and returns absent
  when the root-chain row has expired, even if rows of other chains have not.
  The statement of \<open>CheckTHORName\<close> has no condition on \<open>chain\<close>
  (\<open>CheckTHORName_selects_latest_live\<close>: it takes the latest row with
  \<open>expire > currentHeight\<close> of any chain), although its comment says that
  expiration is tracked only by the THOR record. On \<open>root_expired_tbl\<close> at height
  1500 the THOR row (expire 1000) has expired and the later ETH row (expire 2000) has
  not: the result is the owner and the expiry of the ETH row, not absent.
\<close>

theorem C1_CheckTHORName_reads_every_chain:
  "CheckTHORName table_source 1500 ''alice'' root_expired_tbl =
     ((\<lparr>Owner = ''thor1x'', Expire = 2000, Entries = []\<rparr>, None), root_expired_tbl)"
  by (simp add: CheckTHORName_table live_events_def root_expired_tbl_def
        order_by_timestamp_desc_def zero_THORName_def)

text \<open>
  Claim C2. The claim: \<open>GetTHORNamesByAddress\<close> includes a name only if the entries
  of that name, a name with a live root record, still contain the queried address.
  What the loop tests is the result of \<open>GetTHORName\<close>
  (\<open>GetTHORNamesByAddress_revalidated\<close>), and \<open>GetTHORName\<close> takes a name for found
  when a row of any chain has not expired. On \<open>root_expired_tbl\<close> at height 1500 no
  THOR row of \<open>alice\<close> has \<open>expire\<close> greater than the height, and the lookup of
  \<open>0xAB\<close> returns \<open>alice\<close>.
\<close>

theorem C2_expired_root_name_still_bound:
  "filter (\<lambda>e. name e = ''alice'' \<and> chain e = ''THOR'' \<and> expire e > 1500) root_expired_tbl = [] \<and>
   GetTHORNamesByAddress table_source 1500 ''0xAB'' root_expired_tbl =
     (([''alice''], None), root_expired_tbl)"
  by (simp add: GetTHORNamesByAddress_def GetTHORName_def CheckTHORName_def table_source_def
        root_expired_tbl_def order_by_timestamp_desc_def zero_THORName_def)

text \<open>
  Claim C3. The claim: \<open>GetTHORNamesByOwnerAddress\<close> includes a candidate only if
  its current authoritative owner is the queried address, and excludes a name whose
  root record has expired at the current height. On \<open>root_expired_tbl\<close> at height
  1500 the THOR row of \<open>alice\<close> has expired, and \<open>alice\<close> is still returned for its
  owner, because \<open>CheckTHORName\<close> resolves the unexpired ETH row.
\<close>

theorem C3_expired_root_record_still_owned:
  "GetTHORNamesByOwnerAddress table_source 1500 ''thor1x'' root_expired_tbl =
     (([''alice''], None), root_expired_tbl)"
  by (simp add: GetTHORNamesByOwnerAddress_def table_source_def CheckTHORName_def
        root_expired_tbl_def order_by_timestamp_desc_def zero_THORName_def)

text \<open>
  Claim C4. When no row of the name has \<open>expire\<close> greater than the current height,
  \<open>CheckTHORName\<close> returns the zero value (empty owner, expire 0) and no error, and
  \<open>GetTHORName\<close> returns the same, with no entries.
\<close>

theorem C4_no_live_event_resolves_empty:
  assumes "\<forall>e\<in>set tbl. name e = n \<longrightarrow> expire e \<le> h"
  shows "CheckTHORName table_source h n tbl =
           ((\<lparr>Owner = '''', Expire = 0, Entries = []\<rparr>, None), tbl) \<and>
         GetTHORName table_source h n tbl =
           ((\<lparr>Owner = '''', Expire = 0, Entries = []\<rparr>, None), tbl)"
proof -
  have c: "CheckTHORName table_source h n tbl = ((zero_THORName, None), tbl)"
    using assms by (rule CheckTHORName_absent)
  then have "GetTHORName table_source h n tbl = ((zero_THORName, None), tbl)"
    by (simp add: GetTHORName_not_found zero_THORName_def)
  with c show ?thesis by (simp add: zero_THORName_def)
qed

text \<open>
  On \<open>alice_tbl\<close> at height 1500 both rows have expired; the statement of the
  entries would still select both of them.
\<close>

theorem C4_no_live_event_resolves_empty_witness:
  "list_all (\<lambda>e. name e = ''alice'' \<longrightarrow> expire e \<le> 1500) alice_tbl \<and>
   select (SelectEntries ''alice'') alice_tbl =
     [ChainAddress ''ETH'' ''0xAB'', ChainAddress ''THOR'' ''thor1x''] \<and>
   CheckTHORName table_source 1500 ''alice'' alice_tbl =
     ((\<lparr>Owner = '''', Expire = 0, Entries = []\<rparr>, None), alice_tbl) \<and>
   GetTHORName table_source 1500 ''alice'' alice_tbl =
     ((\<lparr>Owner = '''', Expire = 0, Entries = []\<rparr>, None), alice_tbl)"
proof -
  have h: "\<forall>e\<in>set alice_tbl. name e = ''alice'' \<longrightarrow> expire e \<le> 1500"
    by (simp add: alice_tbl_def)
  have s: "select (SelectEntries ''alice'') alice_tbl =
     [ChainAddress ''ETH'' ''0xAB'', ChainAddress ''THOR'' ''thor1x'']"
    by (simp add: alice_tbl_def order_by_timestamp_desc_def)
  from C4_no_live_event_resolves_empty[OF h] h s show ?thesis
    by (simp add: list_all_iff)
qed

text \<open>
  Claim C5. The claim: the per-chain entries are always computed, also when the
  resolver found no live record. \<open>GetTHORName\<close> returns before the statement of the
  entries when the owner is empty: on \<open>alice_tbl\<close> at height 1500 the statement would
  select two rows and \<open>GetTHORName\<close> returns no entries.
\<close>

theorem C5_counterexample:
  "select (SelectEntries ''alice'') alice_tbl =
     [ChainAddress ''ETH'' ''0xAB'', ChainAddress ''THOR'' ''thor1x''] \<and>
   GetTHORName table_source 1500 ''alice'' alice_tbl =
     ((\<lparr>Owner = '''', Expire = 0, Entries = []\<rparr>, None), alice_tbl)"
  by (simp add: GetTHORName_def CheckTHORName_def table_source_def alice_tbl_def
        order_by_timestamp_desc_def zero_THORName_def)

text \<open>
  Claim C5, as amended. When \<open>CheckTHORName\<close> returns an error or an empty owner,
  \<open>GetTHORName\<close> returns what \<open>CheckTHORName\<close> returned, in the state in which it
  returned it, with no entries: the statement of the entries is not issued. When it
  returns a non-empty owner, the entries are the per-chain snapshot of the table.
\<close>

theorem C5_entries_only_for_found_name:
  "(snd (fst (CheckTHORName Query h n s)) \<noteq> None \<or>
    Owner (fst (fst (CheckTHORName Query h n s))) = '''' \<longrightarrow>
      GetTHORName Query h n s = CheckTHORName Query h n s \<and>
      Entries (fst (fst (GetTHORName Query h n s))) = []) \<and>
   (Owner (fst (fst (CheckTHORName table_source h n tbl))) \<noteq> '''' \<longrightarrow>
      Entries (fst (fst (GetTHORName table_source h n tbl))) =
        map (\<lambda>e. \<lparr>Chain = chain e, Address = address e\<rparr>) (latest_per_chain n tbl))"
  by (simp add: GetTHORName_not_found CheckTHORName_Entries Entries_GetTHORName_table)

theorem C5_entries_only_for_found_name_witness:
  "Owner (fst (fst (CheckTHORName table_source 1500 ''alice'' alice_tbl))) = '''' \<and>
   GetTHORName table_source 1500 ''alice'' alice_tbl =
     CheckTHORName table_source 1500 ''alice'' alice_tbl \<and>
   Entries (fst (fst (GetTHORName table_source 1500 ''alice'' alice_tbl))) = [] \<and>
   Owner (fst (fst (CheckTHORName table_source 500 ''alice'' alice_tbl))) = ''thor1x'' \<and>
   Entries (fst (fst (GetTHORName table_source 500 ''alice'' alice_tbl))) =
     map (\<lambda>e. \<lparr>Chain = chain e, Address = address e\<rparr>) (latest_per_chain ''alice'' alice_tbl)"
proof -
  have a: "Owner (fst (fst (CheckTHORName table_source 1500 ''alice'' alice_tbl))) = ''''"
    by (simp add: CheckTHORName_def table_source_def alice_tbl_def
          order_by_timestamp_desc_def zero_THORName_def)
  have b: "Owner (fst (fst (CheckTHORName table_source 500 ''alice'' alice_tbl))) = ''thor1x''"
    by (simp add: CheckTHORName_def table_source_def alice_tbl_def
          order_by_timestamp_desc_def zero_THORName_def)
  from C5_entries_only_for_found_name[where Query = table_source and h = 1500
      and n = "''alice''" and s = alice_tbl and tbl = alice_tbl] a
  have c: "GetTHORName table_source 1500 ''alice'' alice_tbl =
     CheckTHORName table_source 1500 ''alice'' alice_tbl"
    "Entries (fst (fst (GetTHORName table_source 1500 ''alice'' alice_tbl))) = []"
    by blast+
  from C5_entries_only_for_found_name[where Query = table_source and h = 500
      and n = "''alice''" and s = alice_tbl and tbl = alice_tbl] b
  have d: "Entries (fst (fst (GetTHORName table_source 500 ''alice'' alice_tbl))) =
     map (\<lambda>e. \<lparr>Chain = chain e, Address = address e\<rparr>) (latest_per_chain ''alice'' alice_tbl)"
    by simp
  from a b c d show ?thesis by blast
qed

text \<open>
  Claim C6. The claim: every failure of the data source is returned to the caller, in
  particular one raised while a reverse lookup resolves a candidate again. With a
  data source on which the resolver's statement for \<open>alice\<close> fails,
  \<open>GetTHORName\<close> of \<open>alice\<close> returns the error and \<open>GetTHORNamesByAddress\<close> returns
  no error and no name.
\<close>

theorem C6_counterexample:
  "GetTHORName alice_check_fails 500 ''alice'' alice_tbl =
     ((\<lparr>Owner = '''', Expire = 0, Entries = []\<rparr>, Some (QueryError 1)), alice_tbl) \<and>
   GetTHORNamesByAddress alice_check_fails 500 ''0xAB'' alice_tbl = (([], None), alice_tbl)"
  by (simp add: GetTHORNamesByAddress_def GetTHORName_def CheckTHORName_def alice_check_fails_def
        failing_source_def table_source_def alice_tbl_def zero_THORName_def)

text \<open>
  Claim C6, as amended. A failure of the statement that an operation issues itself is
  returned unchanged, in the state the failed statement left, by that operation: of the
  resolver's statement by \<open>CheckTHORName\<close> and \<open>GetTHORName\<close>, of the statement of
  the entries by \<open>GetTHORName\<close>, of the candidate statement by
  \<open>GetTHORNamesByAddress\<close> and \<open>GetTHORNamesByOwnerAddress\<close>. An error while a
  candidate is resolved again is not returned: the loop goes on with the next row and
  the names collected so far.
\<close>

theorem C6_own_statement_errors_are_returned:
  "(Query (SelectCheck h n) s = (Inl err, s') \<longrightarrow>
      CheckTHORName Query h n s = ((\<lparr>Owner = '''', Expire = 0, Entries = []\<rparr>, Some err), s') \<and>
      GetTHORName Query h n s = ((\<lparr>Owner = '''', Expire = 0, Entries = []\<rparr>, Some err), s')) \<and>
   (CheckTHORName Query h n s = ((t, None), s') \<and> Owner t \<noteq> '''' \<and>
    Query (SelectEntries n) s' = (Inl err, s'') \<longrightarrow>
      GetTHORName Query h n s = ((t, Some err), s'')) \<and>
   (Query (SelectByAddress a) s = (Inl err, s') \<longrightarrow>
      GetTHORNamesByAddress Query h a s = (([], Some err), s')) \<and>
   (Query (SelectByOwner a) s = (Inl err, s') \<longrightarrow>
      GetTHORNamesByOwnerAddress Query h a s = (([], Some err), s')) \<and>
   (GetTHORName Query h n s = ((t, Some err), s') \<longrightarrow>
      names_by_address Query h a (Name n # rows) names s =
        names_by_address Query h a rows names s') \<and>
   (CheckTHORName Query h n s = ((t, Some err), s') \<longrightarrow>
      names_by_owner Query h a (Name n # rows) names s =
        names_by_owner Query h a rows names s')"
proof -
  have 1: "Query (SelectCheck h n) s = (Inl err, s') \<longrightarrow>
      CheckTHORName Query h n s = ((\<lparr>Owner = '''', Expire = 0, Entries = []\<rparr>, Some err), s') \<and>
      GetTHORName Query h n s = ((\<lparr>Owner = '''', Expire = 0, Entries = []\<rparr>, Some err), s')"
    using CheckTHORName_query_error[of Query h n s err s']
      GetTHORName_check_error[of Query h n s zero_THORName err s']
    by (simp add: zero_THORName_def)
  have 2: "CheckTHORName Query h n s = ((t, None), s') \<and> Owner t \<noteq> '''' \<and>
    Query (SelectEntries n) s' = (Inl err, s'') \<longrightarrow>
      GetTHORName Query h n s = ((t, Some err), s'')"
    using GetTHORName_entries_error[of Query h n s t s' err s''] by blast
  have 3: "Query (SelectByAddress a) s = (Inl err, s') \<longrightarrow>
      GetTHORNamesByAddress Query h a s = (([], Some err), s')"
    by (simp add: GetTHORNamesByAddress_def)
  have 4: "Query (SelectByOwner a) s = (Inl err, s') \<longrightarrow>
      GetTHORNamesByOwnerAddress Query h a s = (([], Some err), s')"
    by (simp add: GetTHORNamesByOwnerAddress_def)
  have 5: "GetTHORName Query h n s = ((t, Some err), s') \<longrightarrow>
      names_by_address Query h a (Name n # rows) names s =
        names_by_address Query h a rows names s'"
    using names_by_address_skip[of "Name n" n Query h s t err s' a rows names] by simp
  have 6: "CheckTHORName Query h n s = ((t, Some err), s') \<longrightarrow>
      names_by_owner Query h a (Name n # rows) names s =
        names_by_owner Query h a rows names s'"
    using names_by_owner_skip[of "Name n" n Query h s t err s' a rows names] by simp
  from 1 2 3 4 5 6 show ?thesis by blast
qed

theorem C6_own_statement_errors_are_returned_witness:
  "all_fail (SelectCheck 500 ''alice'') alice_tbl = (Inl (QueryError 3), alice_tbl) \<and>
   CheckTHORName all_fail 500 ''alice'' alice_tbl =
     ((\<lparr>Owner = '''', Expire = 0, Entries = []\<rparr>, Some (QueryError 3)), alice_tbl) \<and>
   GetTHORName all_fail 500 ''alice'' alice_tbl =
     ((\<lparr>Owner = '''', Expire = 0, Entries = []\<rparr>, Some (QueryError 3)), alice_tbl) \<and>
   all_fail (SelectByAddress ''0xAB'') alice_tbl = (Inl (QueryError 3), alice_tbl) \<and>
   GetTHORNamesByAddress all_fail 500 ''0xAB'' alice_tbl = (([], Some (QueryError 3)), alice_tbl) \<and>
   all_fail (SelectByOwner ''thor1x'') alice_tbl = (Inl (QueryError 3), alice_tbl) \<and>
   GetTHORNamesByOwnerAddress all_fail 500 ''thor1x'' alice_tbl =
     (([], Some (QueryError 3)), alice_tbl) \<and>
   CheckTHORName alice_entries_fail 500 ''alice'' alice_tbl =
     ((\<lparr>Owner = ''thor1x'', Expire = 1000, Entries = []\<rparr>, None), alice_tbl) \<and>
   alice_entries_fail (SelectEntries ''alice'') alice_tbl = (Inl (QueryError 2), alice_tbl) \<and>
   GetTHORName alice_entries_fail 500 ''alice'' alice_tbl =
     ((\<lparr>Owner = ''thor1x'', Expire = 1000, Entries = []\<rparr>, Some (QueryError 2)), alice_tbl) \<and>
   GetTHORName alice_check_fails 500 ''alice'' alice_tbl =
     ((\<lparr>Owner = '''', Expire = 0, Entries = []\<rparr>, Some (QueryError 1)), alice_tbl) \<and>
   names_by_address alice_check_fails 500 ''0xAB'' [Name ''alice''] [] alice_tbl =
     names_by_address alice_check_fails 500 ''0xAB'' [] [] alice_tbl \<and>
   CheckTHORName alice_check_fails 500 ''alice'' alice_tbl =
     ((\<lparr>Owner = '''', Expire = 0, Entries = []\<rparr>, Some (QueryError 1)), alice_tbl) \<and>
   names_by_owner alice_check_fails 500 ''thor1x'' [Name ''alice''] [] alice_tbl =
     names_by_owner alice_check_fails 500 ''thor1x'' [] [] alice_tbl"
proof -
  have q1: "all_fail (SelectCheck 500 ''alice'') alice_tbl = (Inl (QueryError 3), alice_tbl)"
    and q3: "all_fail (SelectByAddress ''0xAB'') alice_tbl = (Inl (QueryError 3), alice_tbl)"
    and q4: "all_fail (SelectByOwner ''thor1x'') alice_tbl = (Inl (QueryError 3), alice_tbl)"
    by (simp_all add: all_fail_def failing_source_def)
  note a = C6_own_statement_errors_are_returned[where Query = all_fail and h = 500
      and n = "''alice''" and s = alice_tbl and s' = alice_tbl and err = "QueryError 3"]
  from a q1 have c1: "CheckTHORName all_fail 500 ''alice'' alice_tbl =
     ((\<lparr>Owner = '''', Expire = 0, Entries = []\<rparr>, Some (QueryError 3)), alice_tbl)"
    "GetTHORName all_fail 500 ''alice'' alice_tbl =
     ((\<lparr>Owner = '''', Expire = 0, Entries = []\<rparr>, Some (QueryError 3)), alice_tbl)"
    by blast+
  from a[where a = "''0xAB''"] q3
  have c3: "GetTHORNamesByAddress all_fail 500 ''0xAB'' alice_tbl =
    (([], Some (QueryError 3)), alice_tbl)"
    by blast
  from a[where a = "''thor1x''"] q4
  have c4: "GetTHORNamesByOwnerAddress all_fail 500 ''thor1x'' alice_tbl =
     (([], Some (QueryError 3)), alice_tbl)"
    by blast
  have k2: "CheckTHORName alice_entries_fail 500 ''alice'' alice_tbl =
     ((\<lparr>Owner = ''thor1x'', Expire = 1000, Entries = []\<rparr>, None), alice_tbl)"
    by (simp add: CheckTHORName_def alice_entries_fail_def failing_source_def table_source_def
          alice_tbl_def order_by_timestamp_desc_def zero_THORName_def)
  have q2: "alice_entries_fail (SelectEntries ''alice'') alice_tbl = (Inl (QueryError 2), alice_tbl)"
    by (simp add: alice_entries_fail_def failing_source_def)
  from C6_own_statement_errors_are_returned[where Query = alice_entries_fail and h = 500
      and n = "''alice''" and s = alice_tbl and s' = alice_tbl and s'' = alice_tbl
      and err = "QueryError 2" and t = "\<lparr>Owner = ''thor1x'', Expire = 1000, Entries = []\<rparr>"]
    k2 q2
  have c2: "GetTHORName alice_entries_fail 500 ''alice'' alice_tbl =
     ((\<lparr>Owner = ''thor1x'', Expire = 1000, Entries = []\<rparr>, Some (QueryError 2)), alice_tbl)"
    by simp
  have k5: "GetTHORName alice_check_fails 500 ''alice'' alice_tbl =
     ((\<lparr>Owner = '''', Expire = 0, Entries = []\<rparr>, Some (QueryError 1)), alice_tbl)"
    and k6: "CheckTHORName alice_check_fails 500 ''alice'' alice_tbl =
     ((\<lparr>Owner = '''', Expire = 0, Entries = []\<rparr>, Some (QueryError 1)), alice_tbl)"
    by (simp_all add: GetTHORName_def CheckTHORName_def alice_check_fails_def failing_source_def
          zero_THORName_def)
  note b = C6_own_statement_errors_are_returned[where Query = alice_check_fails and h = 500
      and n = "''alice''" and s = alice_tbl and s' = alice_tbl and err = "QueryError 1"
      and t = "\<lparr>Owner = '''', Expire = 0, Entries = []\<rparr>" and rows = "[]" and names = "[]"]
  from b[where a = "''0xAB''"] k5
  have c5: "names_by_address alice_check_fails 500 ''0xAB'' [Name ''alice''] [] alice_tbl =
     names_by_address alice_check_fails 500 ''0xAB'' [] [] alice_tbl"
    by blast
  from b[where a = "''thor1x''"] k6
  have c6: "names_by_owner alice_check_fails 500 ''thor1x'' [Name ''alice''] [] alice_tbl =
     names_by_owner alice_check_fails 500 ''thor1x'' [] [] alice_tbl"
    by blast
  show ?thesis
    by (intro conjI) (rule q1 c1 q3 c3 q4 c4 k2 q2 c2 k5 c5 k6 c6)+
qed



text \<open>
  Claim C8. The claim: in \<open>GetTHORNamesByAddress\<close> a candidate whose resolution
  fails, by an error of the resolver or for want of a live root record, is left out of
  the result without an error. A candidate is left out when \<open>GetTHORName\<close> returns an
  error or an empty owner (\<open>GetTHORNamesByAddress_skips_unresolved\<close>); a candidate
  whose root record has expired is kept when a row of another chain has not. On
  \<open>root_expired_tbl\<close> at height 1500 no THOR row of \<open>alice\<close> has \<open>expire\<close> greater
  than the height, \<open>GetTHORName\<close> resolves \<open>alice\<close> with the owner and the expiry of
  the ETH row and both entries, and \<open>alice\<close> is in the result for \<open>0xAB\<close>.
\<close>

theorem C8_candidate_with_expired_root_is_kept:
  "filter (\<lambda>e. name e = ''alice'' \<and> chain e = ''THOR'' \<and> expire e > 1500) root_expired_tbl = [] \<and>
   ''alice'' \<in> set (candidates address ''0xAB'' root_expired_tbl) \<and>
   GetTHORName table_source 1500 ''alice'' root_expired_tbl =
     ((\<lparr>Owner = ''thor1x'', Expire = 2000,
        Entries = [\<lparr>Chain = ''ETH'', Address = ''0xAB''\<rparr>,
                   \<lparr>Chain = ''THOR'', Address = ''thor1x''\<rparr>]\<rparr>, None),
      root_expired_tbl) \<and>
   ''alice'' \<in> set (fst (fst (GetTHORNamesByAddress table_source 1500 ''0xAB'' root_expired_tbl)))"
  by (simp add: GetTHORNamesByAddress_def GetTHORName_def CheckTHORName_def table_source_def
        candidates_def root_expired_tbl_def order_by_timestamp_desc_def zero_THORName_def)

text \<open>
  Claim C10. With the empty string as the queried address, a name that has a row with
  an empty owner and no row with \<open>expire\<close> greater than the current height is in the
  result of \<open>GetTHORNamesByOwnerAddress\<close>: the zero-value owner of the resolver
  equals the queried address.
\<close>

theorem C10_empty_address_matches_absent_owner:
  assumes "e \<in> set tbl" and "name e = n" and "owner e = ''''"
    and "\<forall>e'\<in>set tbl. name e' = n \<longrightarrow> expire e' \<le> h"
  shows "n \<in> set (fst (fst (GetTHORNamesByOwnerAddress table_source h '''' tbl)))"
proof -
  have "n \<in> set (candidates owner '''' tbl)"
    using assms(1-3) by (auto simp: set_candidates)
  moreover have "owned_by table_source h '''' tbl n"
    using CheckTHORName_absent[OF assms(4)] by (simp add: owned_by_def zero_THORName_def)
  ultimately show ?thesis by (simp add: GetTHORNamesByOwnerAddress_table)
qed

theorem C10_empty_address_matches_absent_owner_witness:
  "list_all (\<lambda>e. name e = ''bob'' \<longrightarrow> expire e \<le> 20) ownerless_tbl \<and>
   hd ownerless_tbl \<in> set ownerless_tbl \<and> name (hd ownerless_tbl) = ''bob'' \<and>
   owner (hd ownerless_tbl) = '''' \<and>
   ''bob'' \<in> set (fst (fst (GetTHORNamesByOwnerAddress table_source 20 '''' ownerless_tbl)))"
proof -
  have h: "\<forall>e\<in>set ownerless_tbl. name e = ''bob'' \<longrightarrow> expire e \<le> 20"
    by (simp add: ownerless_tbl_def)
  have m: "hd ownerless_tbl \<in> set ownerless_tbl" "name (hd ownerless_tbl) = ''bob''"
    "owner (hd ownerless_tbl) = ''''"
    by (simp_all add: ownerless_tbl_def)
  from C10_empty_address_matches_absent_owner[OF m h] h m show ?thesis
    by (simp add: list_all_iff)
qed

end
